theory Spec2Isabelle
  imports Main "HOL-Library.Word"
begin

section \<open>The logging shim of fs/log.go\<close>

text \<open>
  The development follows \<^verbatim>\<open>src/fs/log.go\<close>: the severity levels and their
  names, the text formatter, the field annotations, the emitter \<^verbatim>\<open>LogPrintf\<close> with its
  fallback printer, and the threshold-filtered emitters.
\<close>

subsection \<open>Formatting primitives of the Go library used by the file\<close>

text \<open>
  Decimal rendering of a natural number, as the verb \<^verbatim>\<open>%d\<close> prints an unsigned value.
\<close>

definition digit_char :: "nat \<Rightarrow> char" where
  "digit_char d = ''0123456789'' ! d"

fun dec :: "nat \<Rightarrow> string" where
  "dec n = (if n < 10 then [digit_char n] else dec (n div 10) @ [digit_char (n mod 10)])"

declare dec.simps [simp del]

text \<open>
  \<^verbatim>\<open>%-6s\<close> and its relatives: a string shorter than the width is left-justified, that is
  filled with spaces on the right; a longer one is printed whole. \<^verbatim>\<open>%02d\<close> and
  \<^verbatim>\<open>%04d\<close>: zeros on the left.
\<close>

definition pad_right :: "nat \<Rightarrow> string \<Rightarrow> string" where
  "pad_right w s = s @ replicate (w - length s) (CHR '' '')"

definition zero_pad :: "nat \<Rightarrow> nat \<Rightarrow> string" where
  "zero_pad w n = replicate (w - length (dec n)) (CHR ''0'') @ dec n"

subsection \<open>Severity levels\<close>

text \<open>\<^verbatim>\<open>type LogLevel byte\<close>, with the eight constants numbered by \<^verbatim>\<open>iota\<close>.\<close>

type_synonym LogLevel = "8 word"

definition LogLevelEmergency :: LogLevel where "LogLevelEmergency = 0"
definition LogLevelAlert :: LogLevel where "LogLevelAlert = 1"
definition LogLevelCritical :: LogLevel where "LogLevelCritical = 2"
definition LogLevelError :: LogLevel where "LogLevelError = 3"
definition LogLevelWarning :: LogLevel where "LogLevelWarning = 4"
definition LogLevelNotice :: LogLevel where "LogLevelNotice = 5"
definition LogLevelInfo :: LogLevel where "LogLevelInfo = 6"
definition LogLevelDebug :: LogLevel where "LogLevelDebug = 7"

lemmas LogLevel_defs =
  LogLevelEmergency_def LogLevelAlert_def LogLevelCritical_def LogLevelError_def
  LogLevelWarning_def LogLevelNotice_def LogLevelInfo_def LogLevelDebug_def

text \<open>The slice literal is keyed by the constants, so its order is that of the ranks.\<close>

definition logLevelToString :: "string list" where
  "logLevelToString =
     [''EMERGENCY'', ''ALERT'', ''CRITICAL'', ''ERROR'', ''WARNING'', ''NOTICE'', ''INFO'',
      ''DEBUG'']"

text \<open>
  Indexing a slice panics out of range; the panic is a value of the model, so that
  ``never fails'' is a statement about the result.
\<close>

datatype runtime_panic = IndexOutOfRange nat nat

definition index :: "'a list \<Rightarrow> nat \<Rightarrow> runtime_panic + 'a" where
  "index xs i = (if i < length xs then Inr (xs ! i) else Inl (IndexOutOfRange i (length xs)))"

text \<open>
  \<^verbatim>\<open>func (l LogLevel) String() string\<close>. The verb \<^verbatim>\<open>%d\<close> does not go through the
  \<^verbatim>\<open>String\<close> method, it prints the byte in decimal.
\<close>

definition LogLevel_String :: "LogLevel \<Rightarrow> runtime_panic + string" where
  "LogLevel_String l =
     (if l \<ge> of_nat (length logLevelToString)
      then Inr (''LogLevel('' @ dec (unat l) @ '')'')
      else index logLevelToString (unat l))"

text \<open>
  \<^verbatim>\<open>func (l *LogLevel) Set(s string) error\<close>. The loop over the names with its index;
  the result is the receiver after the call and the returned error.
\<close>

datatype error = errors_Errorf string string

fun Set_loop :: "nat \<Rightarrow> string list \<Rightarrow> string \<Rightarrow> nat option" where
  "Set_loop n [] s = None"
| "Set_loop n (name # rest) s =
     (if s \<noteq> [] \<and> name = s then Some n else Set_loop (Suc n) rest s)"

definition LogLevel_Set :: "LogLevel \<Rightarrow> string \<Rightarrow> LogLevel \<times> error option" where
  "LogLevel_Set l s =
     (case Set_loop 0 logLevelToString s of
        Some n \<Rightarrow> (of_nat n, None)
      | None \<Rightarrow> (l, Some (errors_Errorf ''Unknown log level %q'' s)))"

definition LogLevel_Type :: "LogLevel \<Rightarrow> string" where
  "LogLevel_Type l = ''string''"

subsection \<open>Time stamps\<close>

text \<open>
  A wall-clock instant, as far as the layout used by the file reads it. The layout
  language of \<^verbatim>\<open>Time.Format\<close> is interpreted for the elements that occur in the layout
  set by \<^verbatim>\<open>init\<close>: \<^verbatim>\<open>2006\<close> (year, four digits), \<^verbatim>\<open>01\<close> (month), \<^verbatim>\<open>02\<close> (day),
  \<^verbatim>\<open>15\<close> (hour), \<^verbatim>\<open>04\<close> (minute), \<^verbatim>\<open>05\<close> (second), each zero-padded, and the
  literal separators. Any other layout is outside the model: the result is \<open>None\<close>.
\<close>

record Time =
  Year :: nat
  Month :: nat
  Day :: nat
  Hour :: nat
  Minute :: nat
  Second :: nat

fun time_Format :: "Time \<Rightarrow> string \<Rightarrow> string option" where
  "time_Format t layout =
     (if layout = [] then Some []
      else if take 4 layout = ''2006''
        then map_option ((@) (zero_pad 4 (Year t))) (time_Format t (drop 4 layout))
      else if take 2 layout = ''01''
        then map_option ((@) (zero_pad 2 (Month t))) (time_Format t (drop 2 layout))
      else if take 2 layout = ''02''
        then map_option ((@) (zero_pad 2 (Day t))) (time_Format t (drop 2 layout))
      else if take 2 layout = ''15''
        then map_option ((@) (zero_pad 2 (Hour t))) (time_Format t (drop 2 layout))
      else if take 2 layout = ''04''
        then map_option ((@) (zero_pad 2 (Minute t))) (time_Format t (drop 2 layout))
      else if take 2 layout = ''05''
        then map_option ((@) (zero_pad 2 (Second t))) (time_Format t (drop 2 layout))
      else if hd layout = CHR '' '' \<or> hd layout = CHR '':''
           \<or> (hd layout = CHR ''-'' \<and> take 3 layout \<noteq> ''-07'')
        then map_option ((#) (hd layout)) (time_Format t (tl layout))
      else None)"

declare time_Format.simps [simp del]

subsection \<open>Go values behind \<^verbatim>\<open>interface{}\<close> and the field annotation\<close>

text \<open>
  The values that reach the emitters as subject or as variadic argument: the nil
  interface, strings, integers, field annotations, and any other value, which is known
  here only through its renderings under \<^verbatim>\<open>%v\<close>, \<^verbatim>\<open>%+v\<close> and \<^verbatim>\<open>%T\<close>.
  \<^verbatim>\<open>type LogValueItem struct { key string; value interface{} }\<close>.
\<close>

datatype LogValueItem = LogValueItem (key: string) (val: iface)
  and iface =
      GoNil
    | GoString string
    | GoInt int
    | Item LogValueItem
    | Opaque string string string

definition LogValue :: "string \<Rightarrow> iface \<Rightarrow> LogValueItem" where
  "LogValue k v = LogValueItem k v"

definition LogValueItem_String :: "LogValueItem \<Rightarrow> string" where
  "LogValueItem_String j = []"

definition dec_int :: "int \<Rightarrow> string" where
  "dec_int i = (if i < 0 then ''-'' @ dec (nat (- i)) else dec (nat i))"

text \<open>
  The three verbs the file applies to a subject. A \<^verbatim>\<open>LogValueItem\<close> has a
  \<^verbatim>\<open>String\<close> method, which \<^verbatim>\<open>%v\<close> and \<^verbatim>\<open>%+v\<close> call.
\<close>

fun fmt_v :: "iface \<Rightarrow> string" where
  "fmt_v GoNil = ''<nil>''"
| "fmt_v (GoString s) = s"
| "fmt_v (GoInt i) = dec_int i"
| "fmt_v (Item j) = LogValueItem_String j"
| "fmt_v (Opaque v p t) = v"

fun fmt_plus_v :: "iface \<Rightarrow> string" where
  "fmt_plus_v GoNil = ''<nil>''"
| "fmt_plus_v (GoString s) = s"
| "fmt_plus_v (GoInt i) = dec_int i"
| "fmt_plus_v (Item j) = LogValueItem_String j"
| "fmt_plus_v (Opaque v p t) = p"

fun fmt_T :: "iface \<Rightarrow> string" where
  "fmt_T GoNil = ''<nil>''"
| "fmt_T (GoString s) = ''string''"
| "fmt_T (GoInt i) = ''int''"
| "fmt_T (Item j) = ''fs.LogValueItem''"
| "fmt_T (Opaque v p t) = t"

text \<open>
  A \<^verbatim>\<open>LogLevel\<close> under \<^verbatim>\<open>%-6s\<close>: the verb calls the \<^verbatim>\<open>String\<close> method and pads its
  result; a panic of the method is caught by the formatter and printed in place.
\<close>

definition panic_message :: "runtime_panic \<Rightarrow> string" where
  "panic_message p =
     (case p of IndexOutOfRange i n \<Rightarrow>
        ''runtime error: index out of range ['' @ dec i @ ''] with length '' @ dec n)"

definition fmt_s_LogLevel :: "nat \<Rightarrow> LogLevel \<Rightarrow> string" where
  "fmt_s_LogLevel w l =
     (case LogLevel_String l of
        Inr s \<Rightarrow> pad_right w s
      | Inl p \<Rightarrow> ''%!s(PANIC=String method: '' @ panic_message p @ '')'')"

subsection \<open>The structured backend\<close>

text \<open>
  The backend is the external library \<^verbatim>\<open>logrus\<close>. Its seven levels, from most to least
  severe, and their lower-case names as \<^verbatim>\<open>Level.String\<close> gives them.
\<close>

datatype logrus_Level =
  PanicLevel | FatalLevel | ErrorLevel | WarnLevel | InfoLevel | DebugLevel | TraceLevel

fun Level_String :: "logrus_Level \<Rightarrow> string" where
  "Level_String PanicLevel = ''panic''"
| "Level_String FatalLevel = ''fatal''"
| "Level_String ErrorLevel = ''error''"
| "Level_String WarnLevel = ''warning''"
| "Level_String InfoLevel = ''info''"
| "Level_String DebugLevel = ''debug''"
| "Level_String TraceLevel = ''trace''"

type_synonym Fields = "string \<rightharpoonup> iface"

record Entry =
  entry_Data :: Fields
  entry_Time :: Time
  entry_Level :: logrus_Level
  entry_Message :: string

text \<open>\<^verbatim>\<open>strings.ToUpper\<close> on the ASCII letters, which is all a level name contains.\<close>

definition upper_char :: "char \<Rightarrow> char" where
  "upper_char c =
     (case map_of (zip ''abcdefghijklmnopqrstuvwxyz'' ''ABCDEFGHIJKLMNOPQRSTUVWXYZ'') c of
        Some u \<Rightarrow> u
      | None \<Rightarrow> c)"

definition strings_ToUpper :: "string \<Rightarrow> string" where
  "strings_ToUpper s = map upper_char s"

text \<open>
  What a call of the program does to the outside, in the order in which it happens:
  a record handed to the backend at a level with its fields and message, the end of the
  process, a raised panic, and a line given to \<^verbatim>\<open>log.Output\<close> with its call depth.
\<close>

datatype event =
    Logged logrus_Level Fields string
  | ProcessExit
  | Panicked
  | LogOutput nat string

text \<open>
  The leveled calls on an entry carrying the fields,
  \<^verbatim>\<open>logger.WithFields(fields).Debug(out)\<close> and its siblings, belong to the backend and
  are not part of the file. The specification gives their contract: the backend accepts
  the severity bucket, the message and the field mapping, and is always at maximum
  verbosity; the fatal bucket terminates the process after logging, the panic bucket
  raises after logging.
\<close>

text \<open>Modelled from the spec: \<^verbatim>\<open>Entry.Debug\<close>, missing from the sources; the debug record.\<close>

definition Entry_Debug :: "Fields \<Rightarrow> string \<Rightarrow> event list" where
  "Entry_Debug flds out = [Logged DebugLevel flds out]"

text \<open>Modelled from the spec: \<^verbatim>\<open>Entry.Info\<close>, missing from the sources; the info record.\<close>

definition Entry_Info :: "Fields \<Rightarrow> string \<Rightarrow> event list" where
  "Entry_Info flds out = [Logged InfoLevel flds out]"

text \<open>Modelled from the spec: \<^verbatim>\<open>Entry.Warn\<close>, missing from the sources; the warn record.\<close>

definition Entry_Warn :: "Fields \<Rightarrow> string \<Rightarrow> event list" where
  "Entry_Warn flds out = [Logged WarnLevel flds out]"

text \<open>Modelled from the spec: \<^verbatim>\<open>Entry.Error\<close>, missing from the sources; the error record.\<close>

definition Entry_Error :: "Fields \<Rightarrow> string \<Rightarrow> event list" where
  "Entry_Error flds out = [Logged ErrorLevel flds out]"

text \<open>
  Modelled from the spec: \<^verbatim>\<open>Entry.Fatal\<close>, missing from the sources; the fatal record,
  which terminates the process after logging.
\<close>

definition Entry_Fatal :: "Fields \<Rightarrow> string \<Rightarrow> event list" where
  "Entry_Fatal flds out = [Logged FatalLevel flds out, ProcessExit]"

text \<open>
  Modelled from the spec: \<^verbatim>\<open>Entry.Panic\<close>, missing from the sources; the panic record,
  which raises after logging and does not return normally.
\<close>

definition Entry_Panic :: "Fields \<Rightarrow> string \<Rightarrow> event list" where
  "Entry_Panic flds out = [Logged PanicLevel flds out, Panicked]"

lemmas Entry_defs =
  Entry_Debug_def Entry_Info_def Entry_Warn_def Entry_Error_def Entry_Fatal_def
  Entry_Panic_def

subsection \<open>The text formatter\<close>

record TextFormatter =
  FullTimestamp :: bool
  TimestampFormat :: string
  DisableLevelTruncation :: bool
  DisableColors :: bool

text \<open>
  \<^verbatim>\<open>func (f *MyJSONFormatter) Format(entry *logrus.Entry) ([]byte, error)\<close>;
  \<^verbatim>\<open>MyJSONFormatter\<close> embeds the \<^verbatim>\<open>TextFormatter\<close>, whose fields it reads. The escape
  character is byte 27, the line ends with byte 10.
\<close>

definition levelColor :: "logrus_Level \<Rightarrow> nat" where
  "levelColor lv =
     (case lv of
        DebugLevel \<Rightarrow> 34 | TraceLevel \<Rightarrow> 34
      | WarnLevel \<Rightarrow> 33
      | ErrorLevel \<Rightarrow> 31 | FatalLevel \<Rightarrow> 31 | PanicLevel \<Rightarrow> 31
      | _ \<Rightarrow> 36)"

definition MyJSONFormatter_Format ::
  "TextFormatter \<Rightarrow> Entry \<Rightarrow> (string \<times> error option) option" where
  "MyJSONFormatter_Format f entry =
     (case time_Format (entry_Time entry) (TimestampFormat f) of
        None \<Rightarrow> None
      | Some ts \<Rightarrow>
          if DisableColors f
          then Some (ts @ '' '' @ pad_right 6 (strings_ToUpper (Level_String (entry_Level entry)))
                       @ '' : '' @ entry_Message entry @ [CHR 0x0A], None)
          else Some (ts @ '' '' @ [CHR 0x1B] @ ''['' @ dec (levelColor (entry_Level entry)) @ ''m''
                       @ pad_right 6 (strings_ToUpper (Level_String (entry_Level entry)))
                       @ [CHR 0x1B] @ ''[0m'' @ '' : '' @ entry_Message entry @ [CHR 0x0A], None))"

subsection \<open>Configuration, the logger and its initialisation\<close>

text \<open>
  Of the process-wide configuration, declared outside the file, the three fields the file
  reads. The logger is a pointer that may be nil.
\<close>

record ConfigInfo =
  LogLevel :: LogLevel
  UseJSONLog :: bool
  EnableLogColors :: bool

datatype Formatter = JSONFormatter | MyJSONFormatter TextFormatter

record Logger =
  logger_Level :: logrus_Level
  logger_Formatter :: Formatter

record globals =
  Config :: ConfigInfo
  logger :: "Logger option"

definition init :: "globals \<Rightarrow> globals" where
  "init g =
     (if UseJSONLog (Config g)
      then g\<lparr>logger := Some \<lparr>logger_Level = DebugLevel, logger_Formatter = JSONFormatter\<rparr>\<rparr>
      else g\<lparr>logger := Some
             \<lparr>logger_Level = DebugLevel,
              logger_Formatter = MyJSONFormatter
                \<lparr>FullTimestamp = True,
                 TimestampFormat = ''2006-01-02 15:04:05'',
                 DisableLevelTruncation = True,
                 DisableColors = (\<not> EnableLogColors (Config g))\<rparr>\<rparr>\<rparr>)"

subsection \<open>The emitters\<close>

text \<open>\<^verbatim>\<open>LogPrint\<close>, the fallback printer; the result of \<^verbatim>\<open>log.Output\<close> is dropped.\<close>

definition LogPrint :: "LogLevel \<Rightarrow> string \<Rightarrow> event list" where
  "LogPrint level text = [LogOutput 4 (fmt_s_LogLevel 6 level @ '': '' @ text)]"

text \<open>The loop of \<^verbatim>\<open>LogPrintf\<close> over the variadic arguments, in argument order.\<close>

fun scan_args :: "Fields \<Rightarrow> iface list \<Rightarrow> Fields" where
  "scan_args flds [] = flds"
| "scan_args flds (arg # args) =
     (case arg of
        Item item \<Rightarrow> scan_args (flds(key item \<mapsto> val item)) args
      | _ \<Rightarrow> scan_args flds args)"

text \<open>
  \<^verbatim>\<open>LogPrintf\<close>. The interpolation of the caller's template is the parameter
  \<open>sprintf\<close>; the subject \<^verbatim>\<open>o\<close> is \<open>obj\<close>. A level outside the eight constants
  matches no case of the switch.
\<close>

definition LogPrintf ::
  "(string \<Rightarrow> iface list \<Rightarrow> string) \<Rightarrow> globals \<Rightarrow> LogLevel \<Rightarrow> iface \<Rightarrow> string \<Rightarrow> iface list
     \<Rightarrow> event list" where
  "LogPrintf sprintf g level obj text args =
     (let out = sprintf text args in
      case logger g of
        Some lg \<Rightarrow>
          (let flds =
                 (if obj \<noteq> GoNil
                  then [''object'' \<mapsto> GoString (fmt_plus_v obj),
                        ''objectType'' \<mapsto> GoString (fmt_T obj)]
                  else Map.empty);
               flds = scan_args flds args;
               out = (if \<not> UseJSONLog (Config g) then fmt_v obj @ '': '' @ out else out)
           in if level = LogLevelDebug then Entry_Debug flds out
              else if level = LogLevelInfo then Entry_Info flds out
              else if level = LogLevelNotice \<or> level = LogLevelWarning
                then Entry_Warn flds out
              else if level = LogLevelError then Entry_Error flds out
              else if level = LogLevelCritical then Entry_Fatal flds out
              else if level = LogLevelEmergency \<or> level = LogLevelAlert
                then Entry_Panic flds out
              else [])
      | None \<Rightarrow>
          (let out = (if obj \<noteq> GoNil then fmt_v obj @ '': '' @ out else out)
           in LogPrint level out))"

definition LogLevelPrintf ::
  "(string \<Rightarrow> iface list \<Rightarrow> string) \<Rightarrow> globals \<Rightarrow> LogLevel \<Rightarrow> iface \<Rightarrow> string \<Rightarrow> iface list
     \<Rightarrow> event list" where
  "LogLevelPrintf sprintf g level obj text args =
     (if LogLevel (Config g) \<ge> level then LogPrintf sprintf g level obj text args else [])"

definition Errorf ::
  "(string \<Rightarrow> iface list \<Rightarrow> string) \<Rightarrow> globals \<Rightarrow> iface \<Rightarrow> string \<Rightarrow> iface list \<Rightarrow> event list" where
  "Errorf sprintf g obj text args =
     (if LogLevel (Config g) \<ge> LogLevelError
      then LogPrintf sprintf g LogLevelError obj text args else [])"

definition Logf ::
  "(string \<Rightarrow> iface list \<Rightarrow> string) \<Rightarrow> globals \<Rightarrow> iface \<Rightarrow> string \<Rightarrow> iface list \<Rightarrow> event list" where
  "Logf sprintf g obj text args =
     (if LogLevel (Config g) \<ge> LogLevelNotice
      then LogPrintf sprintf g LogLevelNotice obj text args else [])"

definition Infof ::
  "(string \<Rightarrow> iface list \<Rightarrow> string) \<Rightarrow> globals \<Rightarrow> iface \<Rightarrow> string \<Rightarrow> iface list \<Rightarrow> event list" where
  "Infof sprintf g obj text args =
     (if LogLevel (Config g) \<ge> LogLevelInfo
      then LogPrintf sprintf g LogLevelInfo obj text args else [])"

definition Debugf ::
  "(string \<Rightarrow> iface list \<Rightarrow> string) \<Rightarrow> globals \<Rightarrow> iface \<Rightarrow> string \<Rightarrow> iface list \<Rightarrow> event list" where
  "Debugf sprintf g obj text args =
     (if LogLevel (Config g) \<ge> LogLevelDebug
      then LogPrintf sprintf g LogLevelDebug obj text args else [])"

definition LogDirName :: "iface \<Rightarrow> string \<Rightarrow> iface" where
  "LogDirName f dir = (if dir \<noteq> [] then GoString dir else f)"

section \<open>Properties\<close>

subsection \<open>Severity levels: names and parsing\<close>

text \<open>The defined levels are the eight constants.\<close>

lemma LogLevel_cases:
  fixes l :: LogLevel
  assumes "l \<le> LogLevelDebug"
  shows "l = LogLevelEmergency \<or> l = LogLevelAlert \<or> l = LogLevelCritical \<or> l = LogLevelError
       \<or> l = LogLevelWarning \<or> l = LogLevelNotice \<or> l = LogLevelInfo \<or> l = LogLevelDebug"
proof -
  from assms have "unat l \<le> 7" by (simp add: LogLevelDebug_def word_le_nat_alt)
  then have "unat l \<in> {0, 1, 2, 3, 4, 5, 6, 7}" by auto
  then show ?thesis by (auto simp: LogLevel_defs word_unat_eq_iff)
qed

lemma length_logLevelToString: "length logLevelToString = 8"
  by (simp add: logLevelToString_def)

lemma distinct_logLevelToString: "distinct logLevelToString"
  by (simp add: logLevelToString_def)

lemma logLevelToString_nonempty: "[] \<notin> set logLevelToString"
  by (simp add: logLevelToString_def)

lemma LogLevel_String_defined:
  "l \<le> LogLevelDebug \<Longrightarrow> LogLevel_String l = Inr (logLevelToString ! unat l)"
  by (auto simp: LogLevel_String_def index_def length_logLevelToString LogLevelDebug_def word_le_nat_alt word_less_nat_alt not_le)

lemma LogLevel_String_placeholder:
  "LogLevelDebug < l \<Longrightarrow> LogLevel_String l = Inr (''LogLevel('' @ dec (unat l) @ '')'')"
  by (auto simp: LogLevel_String_def index_def length_logLevelToString LogLevelDebug_def word_le_nat_alt word_less_nat_alt not_le)

lemma LogLevel_String_total: "\<exists>s. LogLevel_String l = Inr s"
  using LogLevel_String_defined [of l] LogLevel_String_placeholder [of l]
  by (cases "l \<le> LogLevelDebug") (auto simp: not_le)

lemma LogLevel_String_names:
  "LogLevel_String LogLevelEmergency = Inr ''EMERGENCY''"
  "LogLevel_String LogLevelAlert = Inr ''ALERT''"
  "LogLevel_String LogLevelCritical = Inr ''CRITICAL''"
  "LogLevel_String LogLevelError = Inr ''ERROR''"
  "LogLevel_String LogLevelWarning = Inr ''WARNING''"
  "LogLevel_String LogLevelNotice = Inr ''NOTICE''"
  "LogLevel_String LogLevelInfo = Inr ''INFO''"
  "LogLevel_String LogLevelDebug = Inr ''DEBUG''"
  by (simp_all add: LogLevel_String_def index_def logLevelToString_def LogLevel_defs word_le_nat_alt)

text \<open>
  The loop of \<^verbatim>\<open>Set\<close>: a hit is the index of an entry equal to the non-empty
  argument; there is no hit exactly when the argument is empty or not in the list; in a
  list without duplicates an entry is found at its own index.
\<close>

lemma Set_loop_Some:
  "Set_loop n xs s = Some m \<Longrightarrow> n \<le> m \<and> m - n < length xs \<and> xs ! (m - n) = s \<and> s \<noteq> []"
proof (induction xs arbitrary: n)
  case Nil
  then show ?case by simp
next
  case (Cons x xs)
  show ?case
  proof (cases "s \<noteq> [] \<and> x = s")
    case True
    with Cons.prems show ?thesis by simp
  next
    case False
    with Cons.prems have "Set_loop (Suc n) xs s = Some m" by auto
    from Cons.IH [OF this]
    have ih: "Suc n \<le> m" "m - Suc n < length xs" "xs ! (m - Suc n) = s" "s \<noteq> []"
      by simp_all
    from ih(1) have "m - n = Suc (m - Suc n)" by arith
    with ih show ?thesis by simp
  qed
qed

lemma Set_loop_None: "Set_loop n xs s = None \<longleftrightarrow> s = [] \<or> s \<notin> set xs"
  by (induction xs arbitrary: n) auto

lemma Set_loop_nth:
  "distinct xs \<Longrightarrow> i < length xs \<Longrightarrow> xs ! i \<noteq> [] \<Longrightarrow> Set_loop n xs (xs ! i) = Some (n + i)"
proof (induction xs arbitrary: n i)
  case Nil
  then show ?case by simp
next
  case (Cons x xs)
  show ?case
  proof (cases i)
    case 0
    with Cons.prems show ?thesis by simp
  next
    case (Suc j)
    with Cons.prems have "x \<noteq> xs ! j" by auto
    moreover from Suc Cons.prems have "Set_loop (Suc n) xs (xs ! j) = Some (Suc n + j)"
      by (intro Cons.IH) auto
    ultimately show ?thesis using Suc by simp
  qed
qed

lemma LogLevel_Set_fails:
  assumes "s \<notin> set logLevelToString"
  shows "LogLevel_Set l s = (l, Some (errors_Errorf ''Unknown log level %q'' s))"
proof -
  from assms have "Set_loop 0 logLevelToString s = None" by (simp add: Set_loop_None)
  then show ?thesis by (simp add: LogLevel_Set_def)
qed

lemma LogLevel_Set_succeeds:
  assumes "s \<in> set logLevelToString"
  shows "\<exists>l'. LogLevel_Set l s = (l', None) \<and> l' \<le> LogLevelDebug \<and> LogLevel_String l' = Inr s"
proof -
  from assms logLevelToString_nonempty have "s \<noteq> []" by auto
  with assms have "Set_loop 0 logLevelToString s \<noteq> None" by (simp add: Set_loop_None)
  then obtain m where m: "Set_loop 0 logLevelToString s = Some m" by auto
  from Set_loop_Some [OF m] have lt: "m < 8" and nth: "logLevelToString ! m = s"
    by (simp_all add: length_logLevelToString)
  from lt have "m mod 256 = m" by simp
  then have u: "unat (of_nat m :: LogLevel) = m" by (simp add: unat_of_nat)
  with lt have le: "(of_nat m :: LogLevel) \<le> LogLevelDebug"
    by (simp add: LogLevelDebug_def word_le_nat_alt)
  from LogLevel_String_defined [OF le] u nth
  have "LogLevel_String (of_nat m) = Inr s" by simp
  with m le show ?thesis by (simp add: LogLevel_Set_def)
qed

lemma LogLevel_Set_name:
  assumes "l \<le> LogLevelDebug"
  shows "LogLevel_Set l0 (logLevelToString ! unat l) = (l, None)"
proof -
  from assms have lt: "unat l < length logLevelToString"
    by (simp add: LogLevelDebug_def word_le_nat_alt length_logLevelToString)
  then have "logLevelToString ! unat l \<in> set logLevelToString" by simp
  with logLevelToString_nonempty have ne: "logLevelToString ! unat l \<noteq> []" by metis
  from Set_loop_nth [OF distinct_logLevelToString lt ne, of 0]
  show ?thesis by (simp add: LogLevel_Set_def)
qed

text \<open>
  Claim C3. Converting a level to its name never fails, whatever the byte: a value above
  \<^verbatim>\<open>LogLevelDebug\<close> gives the placeholder \<^verbatim>\<open>LogLevel(n)\<close> with \<open>n\<close> the value in
  decimal, and a defined level gives its entry of the name table.
\<close>

theorem LogLevel_String_never_fails:
  "(\<exists>s. LogLevel_String l = Inr s)
   \<and> (LogLevelDebug < l \<longrightarrow> LogLevel_String l = Inr (''LogLevel('' @ dec (unat l) @ '')''))
   \<and> (l \<le> LogLevelDebug \<longrightarrow> LogLevel_String l = Inr (logLevelToString ! unat l))
   \<and> LogLevel_String LogLevelEmergency = Inr ''EMERGENCY''
   \<and> LogLevel_String LogLevelAlert = Inr ''ALERT''
   \<and> LogLevel_String LogLevelCritical = Inr ''CRITICAL''
   \<and> LogLevel_String LogLevelError = Inr ''ERROR''
   \<and> LogLevel_String LogLevelWarning = Inr ''WARNING''
   \<and> LogLevel_String LogLevelNotice = Inr ''NOTICE''
   \<and> LogLevel_String LogLevelInfo = Inr ''INFO''
   \<and> LogLevel_String LogLevelDebug = Inr ''DEBUG''"
proof -
  have "\<exists>s. LogLevel_String l = Inr s" by (rule LogLevel_String_total)
  moreover have "LogLevelDebug < l \<longrightarrow>
      LogLevel_String l = Inr (''LogLevel('' @ dec (unat l) @ '')'')"
    by (simp add: LogLevel_String_placeholder)
  moreover have "l \<le> LogLevelDebug \<longrightarrow> LogLevel_String l = Inr (logLevelToString ! unat l)"
    by (simp add: LogLevel_String_defined)
  ultimately show ?thesis by (simp add: LogLevel_String_names)
qed

theorem LogLevel_String_never_fails_witness:
  "LogLevelDebug < (200 :: LogLevel) \<and> LogLevel_String 200 = Inr ''LogLevel(200)''
   \<and> (3 :: LogLevel) \<le> LogLevelDebug \<and> LogLevel_String 3 = Inr ''ERROR''"
  using LogLevel_String_never_fails [of 200] LogLevel_String_never_fails [of 3]
  by (simp add: LogLevelDebug_def dec.simps digit_char_def logLevelToString_def)

text \<open>
  Claim C2. For every defined level, parsing its name gives the level back and no
  error; parsing the empty string fails with the unknown-level error; and parsing
  succeeds exactly for the strings that are equal to one of the canonical names.
\<close>

theorem LogLevel_Set_String_roundtrip:
  "(l \<le> LogLevelDebug \<longrightarrow>
      (\<exists>name. LogLevel_String l = Inr name \<and> LogLevel_Set l0 name = (l, None)))
   \<and> LogLevel_Set l0 [] = (l0, Some (errors_Errorf ''Unknown log level %q'' []))
   \<and> (snd (LogLevel_Set l0 s) = None \<longleftrightarrow> s \<in> set logLevelToString)"
proof (intro conjI impI)
  assume "l \<le> LogLevelDebug"
  then show "\<exists>name. LogLevel_String l = Inr name \<and> LogLevel_Set l0 name = (l, None)"
    using LogLevel_String_defined [of l] LogLevel_Set_name [of l l0] by simp
next
  show "LogLevel_Set l0 [] = (l0, Some (errors_Errorf ''Unknown log level %q'' []))"
    using logLevelToString_nonempty by (rule LogLevel_Set_fails)
next
  show "snd (LogLevel_Set l0 s) = None \<longleftrightarrow> s \<in> set logLevelToString"
  proof (cases "s \<in> set logLevelToString")
    case True
    with LogLevel_Set_succeeds [of s l0] show ?thesis by auto
  next
    case False
    with LogLevel_Set_fails [of s l0] show ?thesis by simp
  qed
qed

theorem LogLevel_Set_String_roundtrip_witness:
  "LogLevelInfo \<le> LogLevelDebug
   \<and> LogLevel_String LogLevelInfo = Inr ''INFO''
   \<and> LogLevel_Set LogLevelEmergency ''INFO'' = (LogLevelInfo, None)
   \<and> snd (LogLevel_Set LogLevelEmergency ''info'') \<noteq> None"
proof -
  have le: "LogLevelInfo \<le> LogLevelDebug" by (simp add: LogLevel_defs word_le_nat_alt)
  have nm: "LogLevel_String LogLevelInfo = Inr ''INFO''"
    by (simp add: LogLevel_String_def index_def logLevelToString_def LogLevelInfo_def
        word_le_nat_alt)
  have "''info'' \<notin> set logLevelToString" by (simp add: logLevelToString_def)
  with le nm LogLevel_Set_String_roundtrip [of LogLevelInfo LogLevelEmergency "''info''"] show ?thesis by auto
qed

text \<open>
  Claim C10. \<^verbatim>\<open>Set\<close> on a string that is no canonical name returns the error and
  leaves the receiver as it was; on a canonical name it returns no error and the receiver
  is the defined level of that name.
\<close>

theorem LogLevel_Set_atomic:
  "(s \<notin> set logLevelToString \<longrightarrow>
      LogLevel_Set l s = (l, Some (errors_Errorf ''Unknown log level %q'' s)))
   \<and> (s \<in> set logLevelToString \<longrightarrow>
      (\<exists>l'. LogLevel_Set l s = (l', None) \<and> l' \<le> LogLevelDebug \<and> LogLevel_String l' = Inr s))"
  using LogLevel_Set_fails [of s l] LogLevel_Set_succeeds [of s l] by blast

theorem LogLevel_Set_atomic_witness:
  "''verbose'' \<notin> set logLevelToString
   \<and> LogLevel_Set LogLevelNotice ''verbose''
       = (LogLevelNotice, Some (errors_Errorf ''Unknown log level %q'' ''verbose''))
   \<and> ''ERROR'' \<in> set logLevelToString
   \<and> LogLevel_Set LogLevelNotice ''ERROR'' = (LogLevelError, None)"
proof -
  have a: "''verbose'' \<notin> set logLevelToString" and b: "''ERROR'' \<in> set logLevelToString"
    by (simp_all add: logLevelToString_def)
  from LogLevel_Set_atomic [of "''ERROR''" LogLevelNotice] b
  obtain l' where l': "LogLevel_Set LogLevelNotice ''ERROR'' = (l', None)" by blast
  have "LogLevel_Set LogLevelNotice ''ERROR'' = (LogLevelError, None)"
    by (simp add: LogLevel_Set_def logLevelToString_def LogLevelError_def)
  with a b LogLevel_Set_atomic [of "''verbose''" LogLevelNotice] show ?thesis by simp
qed

subsection \<open>The emitter\<close>

text \<open>
  What \<^verbatim>\<open>LogPrintf\<close> does without a logger, and with one at each of the eight levels;
  above \<^verbatim>\<open>LogLevelDebug\<close> the switch has no case and nothing is emitted.
\<close>

lemma LogPrintf_absent:
  assumes "logger g = None"
  shows "LogPrintf sprintf g level obj text args =
           LogPrint level (if obj \<noteq> GoNil then fmt_v obj @ '': '' @ sprintf text args
                           else sprintf text args)"
  using assms by (simp add: LogPrintf_def)

lemma LogPrintf_present:
  fixes sprintf :: "string \<Rightarrow> iface list \<Rightarrow> string"
  defines "flds obj args \<equiv> scan_args (if obj \<noteq> GoNil
                           then [''object'' \<mapsto> GoString (fmt_plus_v obj),
                                 ''objectType'' \<mapsto> GoString (fmt_T obj)]
                           else Map.empty) args"
    and "out g obj text args \<equiv> (if \<not> UseJSONLog (Config g) then fmt_v obj @ '': '' @ sprintf text args
                else sprintf text args)"
  assumes "logger g = Some lg"
  shows "LogPrintf sprintf g LogLevelDebug obj text args = [Logged DebugLevel (flds obj args) (out g obj text args)]"
    and "LogPrintf sprintf g LogLevelInfo obj text args = [Logged InfoLevel (flds obj args) (out g obj text args)]"
    and "LogPrintf sprintf g LogLevelNotice obj text args = [Logged WarnLevel (flds obj args) (out g obj text args)]"
    and "LogPrintf sprintf g LogLevelWarning obj text args = [Logged WarnLevel (flds obj args) (out g obj text args)]"
    and "LogPrintf sprintf g LogLevelError obj text args = [Logged ErrorLevel (flds obj args) (out g obj text args)]"
    and "LogPrintf sprintf g LogLevelCritical obj text args = [Logged FatalLevel (flds obj args) (out g obj text args), ProcessExit]"
    and "LogPrintf sprintf g LogLevelEmergency obj text args = [Logged PanicLevel (flds obj args) (out g obj text args), Panicked]"
    and "LogPrintf sprintf g LogLevelAlert obj text args = [Logged PanicLevel (flds obj args) (out g obj text args), Panicked]"
  using assms by (simp_all add: LogPrintf_def LogLevel_defs Entry_defs Let_def)


lemma LogPrintf_undefined_level:
  assumes "logger g = Some lg" and "LogLevelDebug < level"
  shows "LogPrintf sprintf g level obj text args = []"
  using assms by (auto simp: LogPrintf_def LogLevel_defs Let_def)

lemma LogPrintf_head:
  assumes "logger g = Some lg" and "level \<le> LogLevelDebug"
  shows "\<exists>lv rest. LogPrintf sprintf g level obj text args =
           Logged lv
             (scan_args (if obj \<noteq> GoNil
                         then [''object'' \<mapsto> GoString (fmt_plus_v obj),
                               ''objectType'' \<mapsto> GoString (fmt_T obj)]
                         else Map.empty) args)
             (if \<not> UseJSONLog (Config g) then fmt_v obj @ '': '' @ sprintf text args
              else sprintf text args) # rest"
  using LogLevel_cases [OF assms(2)] LogPrintf_present [OF assms(1), of sprintf obj "text" args]
  by (elim disjE) simp_all


lemma pad_right_6:
  "pad_right 6 ''INFO'' = ''INFO  ''" "pad_right 6 ''ALERT'' = ''ALERT ''"
  "pad_right 6 ''ERROR'' = ''ERROR ''" "pad_right 6 ''WARNING'' = ''WARNING''"
  by (simp_all add: pad_right_def eval_nat_numeral)

lemma pad_right_6_more:
  "pad_right 6 ''NOTICE'' = ''NOTICE''" "pad_right 6 ''DEBUG'' = ''DEBUG ''"
  by (simp_all add: pad_right_def eval_nat_numeral)


lemma LogLevel_defined:
  "LogLevelError \<le> LogLevelDebug" "LogLevelNotice \<le> LogLevelDebug"
  "LogLevelInfo \<le> LogLevelDebug" "LogLevelDebug \<le> LogLevelDebug"
  by (simp_all add: LogLevel_defs word_le_nat_alt)



text \<open>
  Claim C4. With a logger present, an emission at each level is one record handed to the
  backend: Debug as debug, Info as info, Notice and Warning as warning, Error as error,
  Critical as fatal followed by the end of the process, Emergency and Alert as panic
  followed by the raised panic; the record comes first in each of the last two.
\<close>

theorem LogPrintf_routing_table:
  fixes sprintf :: "string \<Rightarrow> iface list \<Rightarrow> string"
  defines "flds obj args \<equiv>
             scan_args (if obj \<noteq> GoNil
                        then [''object'' \<mapsto> GoString (fmt_plus_v obj),
                              ''objectType'' \<mapsto> GoString (fmt_T obj)]
                        else Map.empty) args"
    and "out g obj text args \<equiv>
           (if \<not> UseJSONLog (Config g) then fmt_v obj @ '': '' @ sprintf text args
            else sprintf text args)"
  assumes "logger g = Some lg"
  shows "LogPrintf sprintf g LogLevelDebug obj text args
           = [Logged DebugLevel (flds obj args) (out g obj text args)]
       \<and> LogPrintf sprintf g LogLevelInfo obj text args
           = [Logged InfoLevel (flds obj args) (out g obj text args)]
       \<and> LogPrintf sprintf g LogLevelNotice obj text args
           = [Logged WarnLevel (flds obj args) (out g obj text args)]
       \<and> LogPrintf sprintf g LogLevelWarning obj text args
           = [Logged WarnLevel (flds obj args) (out g obj text args)]
       \<and> LogPrintf sprintf g LogLevelError obj text args
           = [Logged ErrorLevel (flds obj args) (out g obj text args)]
       \<and> LogPrintf sprintf g LogLevelCritical obj text args
           = [Logged FatalLevel (flds obj args) (out g obj text args), ProcessExit]
       \<and> LogPrintf sprintf g LogLevelEmergency obj text args
           = [Logged PanicLevel (flds obj args) (out g obj text args), Panicked]
       \<and> LogPrintf sprintf g LogLevelAlert obj text args
           = [Logged PanicLevel (flds obj args) (out g obj text args), Panicked]"
  unfolding flds_def out_def
  using LogPrintf_present [OF assms(3), of sprintf obj "text" args] by simp

theorem LogPrintf_routing_table_witness:
  "logger (init \<lparr>Config = \<lparr>LogLevel = LogLevelNotice, UseJSONLog = False,
                   EnableLogColors = False\<rparr>, logger = None\<rparr>)
     = Some \<lparr>logger_Level = DebugLevel,
             logger_Formatter = MyJSONFormatter
               \<lparr>FullTimestamp = True, TimestampFormat = ''2006-01-02 15:04:05'',
                DisableLevelTruncation = True, DisableColors = True\<rparr>\<rparr>
   \<and> LogPrintf (\<lambda>t a. t)
        (init \<lparr>Config = \<lparr>LogLevel = LogLevelNotice, UseJSONLog = False,
                 EnableLogColors = False\<rparr>, logger = None\<rparr>)
        LogLevelCritical GoNil ''disk full'' []
       = [Logged FatalLevel Map.empty ''<nil>: disk full'', ProcessExit]
   \<and> LogPrintf (\<lambda>t a. t)
        (init \<lparr>Config = \<lparr>LogLevel = LogLevelNotice, UseJSONLog = False,
                 EnableLogColors = False\<rparr>, logger = None\<rparr>)
        LogLevelAlert GoNil ''disk full'' []
       = [Logged PanicLevel Map.empty ''<nil>: disk full'', Panicked]
   \<and> LogPrintf (\<lambda>t a. t)
        (init \<lparr>Config = \<lparr>LogLevel = LogLevelNotice, UseJSONLog = False,
                 EnableLogColors = False\<rparr>, logger = None\<rparr>)
        LogLevelNotice GoNil ''disk full'' []
       = [Logged WarnLevel Map.empty ''<nil>: disk full'']"
proof -
  let ?g = "init \<lparr>Config = \<lparr>LogLevel = LogLevelNotice, UseJSONLog = False,
                   EnableLogColors = False\<rparr>, logger = None\<rparr>"
  let ?lg = "\<lparr>logger_Level = DebugLevel,
             logger_Formatter = MyJSONFormatter
               \<lparr>FullTimestamp = True, TimestampFormat = ''2006-01-02 15:04:05'',
                DisableLevelTruncation = True, DisableColors = True\<rparr>\<rparr>"
  have lg: "logger ?g = Some ?lg" by (simp add: init_def)
  have cfg: "\<not> UseJSONLog (Config ?g)" by (simp add: init_def)
  from LogPrintf_routing_table [OF lg, of "\<lambda>t a. t" GoNil "''disk full''" "[]"] lg cfg show ?thesis
    by simp
qed

text \<open>
  Claim C8, as stated, at a leveled call: without a logger and with the threshold at
  Notice, \<^verbatim>\<open>Infof\<close> gives no line to the basic diagnostic stream, because the
  filtered emitters test the threshold before they reach the fallback printer.
\<close>

theorem fallback_filtered_counterexample:
  "logger \<lparr>Config = \<lparr>LogLevel = LogLevelNotice, UseJSONLog = False, EnableLogColors = False\<rparr>,
           logger = None\<rparr> = None
   \<and> Infof (\<lambda>t a. t)
        \<lparr>Config = \<lparr>LogLevel = LogLevelNotice, UseJSONLog = False, EnableLogColors = False\<rparr>,
         logger = None\<rparr>
        (GoString ''a.txt'') ''Copied (new)'' [] = []"
  by (simp add: Infof_def LogLevel_defs word_le_nat_alt)

text \<open>
  Claim C8, amended. Without a logger, \<^verbatim>\<open>LogPrintf\<close> at any level byte and under any
  configuration, and each filtered emitter (\<^verbatim>\<open>LogLevelPrintf\<close>, \<^verbatim>\<open>Errorf\<close>,
  \<^verbatim>\<open>Logf\<close>, \<^verbatim>\<open>Infof\<close>, \<^verbatim>\<open>Debugf\<close>) whose level is at most the configured
  threshold, gives exactly one line to \<^verbatim>\<open>log.Output\<close>, with call depth 4: the name of
  the level (which \<^verbatim>\<open>String\<close> always returns) padded to width 6, then a colon, a space
  and the message; nothing else happens, in particular nothing is raised. The fallback
  printer itself filters nothing; a filtered emitter whose level is above the threshold
  gives no line.
\<close>

theorem fallback_leveled_calls:
  fixes sprintf :: "string \<Rightarrow> iface list \<Rightarrow> string"
  defines "body obj text args \<equiv>
             (if obj \<noteq> GoNil then fmt_v obj @ '': '' @ sprintf text args
              else sprintf text args)"
  assumes "logger g = None"
  shows "\<exists>name. LogLevel_String level = Inr name
           \<and> LogPrint level msg = [LogOutput 4 (pad_right 6 name @ '': '' @ msg)]
           \<and> LogPrintf sprintf g level obj text args
               = [LogOutput 4 (pad_right 6 name @ '': '' @ body obj text args)]
           \<and> LogLevelPrintf sprintf g level obj text args
               = (if level \<le> LogLevel (Config g)
                  then [LogOutput 4 (pad_right 6 name @ '': '' @ body obj text args)] else [])
           \<and> Errorf sprintf g obj text args
               = (if LogLevelError \<le> LogLevel (Config g)
                  then [LogOutput 4 (''ERROR : '' @ body obj text args)] else [])
           \<and> Logf sprintf g obj text args
               = (if LogLevelNotice \<le> LogLevel (Config g)
                  then [LogOutput 4 (''NOTICE: '' @ body obj text args)] else [])
           \<and> Infof sprintf g obj text args
               = (if LogLevelInfo \<le> LogLevel (Config g)
                  then [LogOutput 4 (''INFO  : '' @ body obj text args)] else [])
           \<and> Debugf sprintf g obj text args
               = (if LogLevelDebug \<le> LogLevel (Config g)
                  then [LogOutput 4 (''DEBUG : '' @ body obj text args)] else [])"
proof -
  have pr: "LogPrint l m = [LogOutput 4 (pad_right 6 n @ '': '' @ m)]"
    if "LogLevel_String l = Inr n" for l m n
    using that by (simp add: LogPrint_def fmt_s_LogLevel_def)
  have raw: "LogPrintf sprintf g l obj text args
               = [LogOutput 4 (pad_right 6 n @ '': '' @ body obj text args)]"
    if "LogLevel_String l = Inr n" for l n
    using assms(2) pr [OF that] by (simp add: LogPrintf_absent body_def)
  from LogLevel_String_total [of level] obtain name where nm: "LogLevel_String level = Inr name" ..
  have e: "Errorf sprintf g obj text args
             = (if LogLevelError \<le> LogLevel (Config g)
                then [LogOutput 4 (''ERROR : '' @ body obj text args)] else [])"
    using raw [OF LogLevel_String_names(4)] by (simp add: Errorf_def pad_right_6)
  have n: "Logf sprintf g obj text args
             = (if LogLevelNotice \<le> LogLevel (Config g)
                then [LogOutput 4 (''NOTICE: '' @ body obj text args)] else [])"
    using raw [OF LogLevel_String_names(6)] by (simp add: Logf_def pad_right_6_more)
  have i: "Infof sprintf g obj text args
             = (if LogLevelInfo \<le> LogLevel (Config g)
                then [LogOutput 4 (''INFO  : '' @ body obj text args)] else [])"
    using raw [OF LogLevel_String_names(7)] by (simp add: Infof_def pad_right_6)
  have d: "Debugf sprintf g obj text args
             = (if LogLevelDebug \<le> LogLevel (Config g)
                then [LogOutput 4 (''DEBUG : '' @ body obj text args)] else [])"
    using raw [OF LogLevel_String_names(8)] by (simp add: Debugf_def pad_right_6_more)
  have f: "LogLevelPrintf sprintf g level obj text args
               = (if level \<le> LogLevel (Config g)
                  then [LogOutput 4 (pad_right 6 name @ '': '' @ body obj text args)] else [])"
    using raw [OF nm] by (simp add: LogLevelPrintf_def)
  from nm pr [OF nm, of msg] raw [OF nm] f e n i d show ?thesis by blast
qed

theorem fallback_leveled_calls_witness:
  "logger \<lparr>Config = \<lparr>LogLevel = LogLevelNotice, UseJSONLog = True, EnableLogColors = True\<rparr>,
           logger = None\<rparr> = None
   \<and> LogPrintf (\<lambda>t a. t)
        \<lparr>Config = \<lparr>LogLevel = LogLevelNotice, UseJSONLog = True, EnableLogColors = True\<rparr>,
         logger = None\<rparr>
        LogLevelInfo (GoString ''remote:dir'') ''copied'' [Item (LogValue ''bytes'' (GoInt 1024))]
       = [LogOutput 4 ''INFO  : remote:dir: copied'']
   \<and> Errorf (\<lambda>t a. t)
        \<lparr>Config = \<lparr>LogLevel = LogLevelNotice, UseJSONLog = True, EnableLogColors = True\<rparr>,
         logger = None\<rparr>
        (GoString ''remote:dir'') ''failed'' []
       = [LogOutput 4 ''ERROR : remote:dir: failed'']
   \<and> Logf (\<lambda>t a. t)
        \<lparr>Config = \<lparr>LogLevel = LogLevelNotice, UseJSONLog = True, EnableLogColors = True\<rparr>,
         logger = None\<rparr>
        GoNil ''done'' []
       = [LogOutput 4 ''NOTICE: done'']
   \<and> Debugf (\<lambda>t a. t)
        \<lparr>Config = \<lparr>LogLevel = LogLevelNotice, UseJSONLog = True, EnableLogColors = True\<rparr>,
         logger = None\<rparr>
        GoNil ''trace'' []
       = []"
proof -
  let ?g = "\<lparr>Config = \<lparr>LogLevel = LogLevelNotice, UseJSONLog = True, EnableLogColors = True\<rparr>,
             logger = None\<rparr>"
  have absent: "logger ?g = None" by simp
  have thr: "LogLevelError \<le> LogLevel (Config ?g)" "LogLevelNotice \<le> LogLevel (Config ?g)"
    "\<not> LogLevelDebug \<le> LogLevel (Config ?g)"
    by (simp_all add: LogLevel_defs word_le_nat_alt)
  have nm: "LogLevel_String LogLevelInfo = Inr ''INFO''" by (simp add: LogLevel_String_names)
  from fallback_leveled_calls [OF absent, of LogLevelInfo "[]" "\<lambda>t a. t"
      "GoString ''remote:dir''" "''copied''" "[Item (LogValue ''bytes'' (GoInt 1024))]"] nm
  have "LogPrintf (\<lambda>t a. t) ?g LogLevelInfo (GoString ''remote:dir'') ''copied''
          [Item (LogValue ''bytes'' (GoInt 1024))] = [LogOutput 4 ''INFO  : remote:dir: copied'']"
    by (auto simp: pad_right_6)
  moreover from fallback_leveled_calls [OF absent, of LogLevelInfo "[]" "\<lambda>t a. t"
      "GoString ''remote:dir''" "''failed''" "[]"] thr
  have "Errorf (\<lambda>t a. t) ?g (GoString ''remote:dir'') ''failed'' []
          = [LogOutput 4 ''ERROR : remote:dir: failed'']"
    by auto
  moreover from fallback_leveled_calls [OF absent, of LogLevelInfo "[]" "\<lambda>t a. t"
      GoNil "''done''" "[]"] thr
  have "Logf (\<lambda>t a. t) ?g GoNil ''done'' [] = [LogOutput 4 ''NOTICE: done'']"
    by auto
  moreover from fallback_leveled_calls [OF absent, of LogLevelInfo "[]" "\<lambda>t a. t"
      GoNil "''trace''" "[]"] thr
  have "Debugf (\<lambda>t a. t) ?g GoNil ''trace'' [] = []"
    by auto
  ultimately show ?thesis using absent by blast
qed

text \<open>
  Claim C9. With a logger and structured mode off, the message of the record is the
  subject under \<^verbatim>\<open>%v\<close>, a colon, a space and the interpolated text, also for the nil
  subject, whose prefix is \<^verbatim>\<open><nil>: \<close>. Without a logger the nil subject gives the
  bare text to the fallback printer, and only a non-nil subject is prepended.
\<close>

theorem LogPrintf_subject_prefix:
  "(logger g = Some lg \<and> \<not> UseJSONLog (Config g) \<and> level \<le> LogLevelDebug \<longrightarrow>
      (\<exists>lv flds rest. LogPrintf sprintf g level obj text args
         = Logged lv flds (fmt_v obj @ '': '' @ sprintf text args) # rest)
      \<and> (\<exists>lv flds rest. LogPrintf sprintf g level GoNil text args
         = Logged lv flds (''<nil>: '' @ sprintf text args) # rest))
   \<and> (logger g = None \<longrightarrow>
        LogPrintf sprintf g level GoNil text args = LogPrint level (sprintf text args)
        \<and> (obj \<noteq> GoNil \<longrightarrow>
             LogPrintf sprintf g level obj text args
               = LogPrint level (fmt_v obj @ '': '' @ sprintf text args)))"
proof (intro conjI impI)
  assume a: "logger g = Some lg \<and> \<not> UseJSONLog (Config g) \<and> level \<le> LogLevelDebug"
  then have lg: "logger g = Some lg" and lv: "level \<le> LogLevelDebug"
    and plain: "\<not> UseJSONLog (Config g)" by simp_all
  from LogPrintf_head [OF lg lv, of sprintf obj "text" args] plain
  show "\<exists>lv flds rest. LogPrintf sprintf g level obj text args
          = Logged lv flds (fmt_v obj @ '': '' @ sprintf text args) # rest"
    by auto
  from LogPrintf_head [OF lg lv, of sprintf GoNil "text" args] plain
  show "\<exists>lv flds rest. LogPrintf sprintf g level GoNil text args
          = Logged lv flds (''<nil>: '' @ sprintf text args) # rest"
    by auto
next
  assume "logger g = None"
  then show "LogPrintf sprintf g level GoNil text args = LogPrint level (sprintf text args)"
    by (simp add: LogPrintf_absent)
next
  assume "logger g = None" and "obj \<noteq> GoNil"
  then show "LogPrintf sprintf g level obj text args
               = LogPrint level (fmt_v obj @ '': '' @ sprintf text args)"
    by (simp add: LogPrintf_absent)
qed

theorem LogPrintf_subject_prefix_witness:
  "LogPrintf (\<lambda>t a. t)
     \<lparr>Config = \<lparr>LogLevel = LogLevelDebug, UseJSONLog = False, EnableLogColors = False\<rparr>,
      logger = Some \<lparr>logger_Level = DebugLevel, logger_Formatter = JSONFormatter\<rparr>\<rparr>
     LogLevelInfo GoNil ''done'' []
     = [Logged InfoLevel Map.empty ''<nil>: done'']
   \<and> LogPrintf (\<lambda>t a. t)
     \<lparr>Config = \<lparr>LogLevel = LogLevelDebug, UseJSONLog = False, EnableLogColors = False\<rparr>,
      logger = None\<rparr>
     LogLevelInfo GoNil ''done'' []
     = [LogOutput 4 ''INFO  : done'']
   \<and> LogPrintf (\<lambda>t a. t)
     \<lparr>Config = \<lparr>LogLevel = LogLevelDebug, UseJSONLog = False, EnableLogColors = False\<rparr>,
      logger = None\<rparr>
     LogLevelInfo (GoString ''file.txt'') ''done'' []
     = [LogOutput 4 ''INFO  : file.txt: done'']"
proof -
  let ?lg = "\<lparr>logger_Level = DebugLevel, logger_Formatter = JSONFormatter\<rparr>"
  let ?c = "\<lparr>LogLevel = LogLevelDebug, UseJSONLog = False, EnableLogColors = False\<rparr>"
  let ?g = "\<lparr>Config = ?c, logger = Some ?lg\<rparr>"
  let ?h = "\<lparr>Config = ?c, logger = None :: Logger option\<rparr>"
  have pre: "logger ?g = Some ?lg \<and> \<not> UseJSONLog (Config ?g) \<and> LogLevelInfo \<le> LogLevelDebug"
    by (simp add: LogLevel_defined)
  from LogPrintf_subject_prefix [of ?g ?lg LogLevelInfo "\<lambda>t a. t" GoNil "''done''" "[]"] pre
  obtain lv flds rest where
    "LogPrintf (\<lambda>t a. t) ?g LogLevelInfo GoNil ''done'' [] = Logged lv flds ''<nil>: done'' # rest"
    by auto
  moreover have "LogPrintf (\<lambda>t a. t) ?g LogLevelInfo GoNil ''done'' []
                   = [Logged InfoLevel Map.empty ''<nil>: done'']"
    by (simp add: LogPrintf_def LogLevel_defs Entry_defs)
  moreover have pr: "\<And>m. LogPrint LogLevelInfo m = [LogOutput 4 (''INFO  : '' @ m)]"
    by (simp add: LogPrint_def fmt_s_LogLevel_def LogLevel_String_names pad_right_6)
  have abs: "logger ?h = None" and ne: "GoString ''file.txt'' \<noteq> GoNil" by simp_all
  from LogPrintf_subject_prefix [of ?h ?lg LogLevelInfo "\<lambda>t a. t" "GoString ''file.txt''" "''done''" "[]"] abs ne pr
  have "LogPrintf (\<lambda>t a. t) ?h LogLevelInfo GoNil ''done'' [] = [LogOutput 4 ''INFO  : done'']
      \<and> LogPrintf (\<lambda>t a. t) ?h LogLevelInfo (GoString ''file.txt'') ''done'' []
          = [LogOutput 4 ''INFO  : file.txt: done'']"
    by simp
  ultimately show ?thesis by simp
qed

subsection \<open>Field annotations\<close>

text \<open>
  The scan of the arguments handles a concatenation part by part, leaves a key alone that
  no later annotation carries, and so maps a key to the value of its last annotation.
\<close>

lemma scan_args_append: "scan_args flds (xs @ ys) = scan_args (scan_args flds xs) ys"
  by (induction xs arbitrary: flds) (auto split: iface.splits)

lemma scan_args_other_keys:
  "(\<forall>j. Item j \<in> set ys \<longrightarrow> key j \<noteq> k) \<Longrightarrow> scan_args flds ys k = flds k"
proof (induction ys arbitrary: flds)
  case Nil
  then show ?case by simp
next
  case (Cons y ys)
  then have later: "\<forall>j. Item j \<in> set ys \<longrightarrow> key j \<noteq> k" by simp
  show ?case
  proof (cases y)
    case (Item j)
    with Cons.prems have "key j \<noteq> k" by simp
    then have "(flds(key j \<mapsto> val j)) k = flds k" by simp
    moreover have "scan_args (flds(key j \<mapsto> val j)) ys k = (flds(key j \<mapsto> val j)) k"
      by (rule Cons.IH [OF later])
    ultimately show ?thesis using Item by simp
  qed (use Cons.IH [OF later, of flds] in simp_all)
qed

lemma scan_args_last_wins:
  assumes "\<forall>j. Item j \<in> set ys \<longrightarrow> key j \<noteq> k"
  shows "scan_args flds (xs @ Item (LogValueItem k v) # ys) k = Some v"
proof -
  have "scan_args flds (xs @ Item (LogValueItem k v) # ys)
          = scan_args ((scan_args flds xs)(k \<mapsto> v)) ys"
    by (simp add: scan_args_append)
  with scan_args_other_keys [OF assms] show ?thesis by simp
qed

text \<open>
  Claim C7. \<^verbatim>\<open>LogValue\<close> builds the annotation of its key and value; the annotation
  renders as the empty string, by its \<^verbatim>\<open>String\<close> method and under \<^verbatim>\<open>%v\<close>; and when
  it stands among the arguments of \<^verbatim>\<open>LogPrintf\<close> with no annotation of the same key
  after it, the fields of the emitted record map its key to its value, whatever came
  before it.
\<close>

theorem LogValue_annotation_last_wins:
  "LogValueItem_String (LogValue k v) = []
   \<and> fmt_v (Item (LogValue k v)) = []
   \<and> key (LogValue k v) = k \<and> val (LogValue k v) = v
   \<and> (logger g = Some lg \<and> level \<le> LogLevelDebug \<and> (\<forall>j. Item j \<in> set ys \<longrightarrow> key j \<noteq> k) \<longrightarrow>
        (\<exists>lv flds out rest.
           LogPrintf sprintf g level obj text (xs @ Item (LogValue k v) # ys)
             = Logged lv flds out # rest
           \<and> flds k = Some v))"
proof -
  have "\<exists>lv flds out rest.
           LogPrintf sprintf g level obj text (xs @ Item (LogValue k v) # ys)
             = Logged lv flds out # rest
           \<and> flds k = Some v"
    if lg: "logger g = Some lg" and lv: "level \<le> LogLevelDebug"
      and later: "\<forall>j. Item j \<in> set ys \<longrightarrow> key j \<noteq> k"
    using LogPrintf_head [OF lg lv, of sprintf obj "text" "xs @ Item (LogValue k v) # ys"]
      scan_args_last_wins [OF later, of _ xs v]
    by (auto simp: LogValue_def)
  then show ?thesis by (simp add: LogValueItem_String_def LogValue_def)
qed

theorem LogValue_annotation_last_wins_witness:
  "(\<exists>lv flds out rest.
      LogPrintf (\<lambda>t a. t)
        \<lparr>Config = \<lparr>LogLevel = LogLevelDebug, UseJSONLog = True, EnableLogColors = False\<rparr>,
         logger = Some \<lparr>logger_Level = DebugLevel, logger_Formatter = JSONFormatter\<rparr>\<rparr>
        LogLevelInfo GoNil ''copied''
        ([Item (LogValue ''bytes'' (GoInt 1)), GoString ''x'']
           @ Item (LogValue ''bytes'' (GoInt 1024)) # [Item (LogValue ''files'' (GoInt 2))])
        = Logged lv flds out # rest
      \<and> flds ''bytes'' = Some (GoInt 1024))
   \<and> LogPrintf (\<lambda>t a. t)
        \<lparr>Config = \<lparr>LogLevel = LogLevelDebug, UseJSONLog = True, EnableLogColors = False\<rparr>,
         logger = Some \<lparr>logger_Level = DebugLevel, logger_Formatter = JSONFormatter\<rparr>\<rparr>
        LogLevelInfo GoNil ''copied''
        [Item (LogValue ''bytes'' (GoInt 1)), GoString ''x'',
         Item (LogValue ''bytes'' (GoInt 1024)), Item (LogValue ''files'' (GoInt 2))]
       = [Logged InfoLevel [''bytes'' \<mapsto> GoInt 1024, ''files'' \<mapsto> GoInt 2] ''copied'']"
proof -
  let ?lg = "\<lparr>logger_Level = DebugLevel, logger_Formatter = JSONFormatter\<rparr>"
  let ?g = "\<lparr>Config = \<lparr>LogLevel = LogLevelDebug, UseJSONLog = True, EnableLogColors = False\<rparr>,
             logger = Some ?lg\<rparr>"
  have pre: "logger ?g = Some ?lg \<and> LogLevelInfo \<le> LogLevelDebug
      \<and> (\<forall>j. Item j \<in> set [Item (LogValue ''files'' (GoInt 2))] \<longrightarrow> key j \<noteq> ''bytes'')"
    by (simp add: LogLevel_defined LogValue_def)
  have run: "LogPrintf (\<lambda>t a. t) ?g LogLevelInfo GoNil ''copied''
        [Item (LogValue ''bytes'' (GoInt 1)), GoString ''x'',
         Item (LogValue ''bytes'' (GoInt 1024)), Item (LogValue ''files'' (GoInt 2))]
       = [Logged InfoLevel [''bytes'' \<mapsto> GoInt 1024, ''files'' \<mapsto> GoInt 2] ''copied'']"
    by (simp add: LogPrintf_def LogLevel_defs Entry_defs LogValue_def)
  from LogValue_annotation_last_wins [of "''bytes''" "GoInt 1024" ?g ?lg LogLevelInfo "[Item (LogValue ''files'' (GoInt 2))]"
      "\<lambda>t a. t" GoNil "''copied''" "[Item (LogValue ''bytes'' (GoInt 1)), GoString ''x'']"] pre run
  show ?thesis by blast
qed

subsection \<open>The text formatter\<close>

text \<open>
  The width of the zero-padded numbers, the rendering of the layout set by \<^verbatim>\<open>init\<close>,
  the formatter \<^verbatim>\<open>init\<close> builds in text mode, and the upper-case level names.
\<close>

lemma length_dec: "n < 10 ^ Suc k \<Longrightarrow> length (dec n) \<le> Suc k"
proof (induction k arbitrary: n)
  case 0
  then show ?case by (simp add: dec.simps)
next
  case (Suc k)
  show ?case
  proof (cases "n < 10")
    case True
    then show ?thesis by (simp add: dec.simps)
  next
    case False
    from Suc.prems have "n div 10 < 10 ^ Suc k" by simp
    from Suc.IH [OF this] False show ?thesis by (simp add: dec.simps [of n])
  qed
qed

lemma length_zero_pad: "n < 10 ^ Suc k \<Longrightarrow> length (zero_pad (Suc k) n) = Suc k"
  using length_dec [of n k] by (simp add: zero_pad_def)

lemma length_zero_pad_2:
  assumes "n < 100"
  shows "length (zero_pad 2 n) = 2"
  using length_zero_pad [of n "Suc 0"] assms by (simp add: numeral_2_eq_2)

lemma length_zero_pad_4:
  assumes "n < 10000"
  shows "length (zero_pad 4 n) = 4"
proof -
  from assms have "n < 10 ^ Suc 3" by simp
  then have "length (zero_pad (Suc 3) n) = Suc 3" by (rule length_zero_pad)
  moreover have "Suc 3 = 4" by simp
  ultimately show ?thesis by simp
qed

lemma time_Format_layout:
  "time_Format t ''2006-01-02 15:04:05''
     = Some (zero_pad 4 (Year t) @ ''-'' @ zero_pad 2 (Month t) @ ''-'' @ zero_pad 2 (Day t)
             @ '' '' @ zero_pad 2 (Hour t) @ '':'' @ zero_pad 2 (Minute t) @ '':''
             @ zero_pad 2 (Second t))"
  by (simp add: time_Format.simps)

lemma init_text_formatter:
  "\<not> UseJSONLog (Config g) \<Longrightarrow>
   logger (init g) = Some \<lparr>logger_Level = DebugLevel,
      logger_Formatter = MyJSONFormatter
        \<lparr>FullTimestamp = True, TimestampFormat = ''2006-01-02 15:04:05'',
         DisableLevelTruncation = True, DisableColors = (\<not> EnableLogColors (Config g))\<rparr>\<rparr>"
  by (simp add: init_def)

lemma upper_level_names:
  "strings_ToUpper ''panic'' = ''PANIC''"
  "strings_ToUpper ''fatal'' = ''FATAL''"
  "strings_ToUpper ''error'' = ''ERROR''"
  "strings_ToUpper ''warning'' = ''WARNING''"
  "strings_ToUpper ''info'' = ''INFO''"
  "strings_ToUpper ''debug'' = ''DEBUG''"
  "strings_ToUpper ''trace'' = ''TRACE''"
  by (simp_all add: strings_ToUpper_def upper_char_def)

lemma dec_colors: "dec 34 = ''34''" "dec 33 = ''33''" "dec 31 = ''31''" "dec 36 = ''36''"
  by (simp_all add: dec.simps digit_char_def)

text \<open>
  Claim C5, as stated, at the Error record with message \<^verbatim>\<open>disk full\<close>: the formatter
  with colors disabled does not return the line alone, it returns the line followed by
  the newline byte.
\<close>

theorem Format_plain_line_counterexample:
  "MyJSONFormatter_Format
     \<lparr>FullTimestamp = True, TimestampFormat = ''2006-01-02 15:04:05'',
      DisableLevelTruncation = True, DisableColors = True\<rparr>
     \<lparr>entry_Data = Map.empty,
      entry_Time = \<lparr>Year = 2024, Month = 3, Day = 9, Hour = 7, Minute = 5, Second = 0\<rparr>,
      entry_Level = ErrorLevel, entry_Message = ''disk full''\<rparr>
   = Some (''2024-03-09 07:05:00 ERROR  : disk full'' @ [CHR 0x0A], None)
   \<and> MyJSONFormatter_Format
     \<lparr>FullTimestamp = True, TimestampFormat = ''2006-01-02 15:04:05'',
      DisableLevelTruncation = True, DisableColors = True\<rparr>
     \<lparr>entry_Data = Map.empty,
      entry_Time = \<lparr>Year = 2024, Month = 3, Day = 9, Hour = 7, Minute = 5, Second = 0\<rparr>,
      entry_Level = ErrorLevel, entry_Message = ''disk full''\<rparr>
   \<noteq> Some (''2024-03-09 07:05:00 ERROR  : disk full'', None)"
  by (simp add: MyJSONFormatter_Format_def time_Format_layout zero_pad_def dec.simps
      digit_char_def upper_level_names pad_right_6)

text \<open>
  Claim C5, amended. The formatter that \<^verbatim>\<open>init\<close> builds in text mode with colors
  disabled renders a record as the time stamp (year in four digits, month, day, hour,
  minute and second in two, separated as in \<^verbatim>\<open>YYYY-MM-DD HH:MM:SS\<close>, nineteen
  characters for a calendar time), a space, the upper-case level name padded to width 6,
  \<^verbatim>\<open> : \<close>, the message, and a terminating newline; for level Error and message
  \<^verbatim>\<open>disk full\<close> that is the stamp, \<^verbatim>\<open> ERROR  : disk full\<close> and the newline.
\<close>

theorem Format_plain_line:
  fixes t :: Time
  defines "stamp \<equiv> zero_pad 4 (Year t) @ ''-'' @ zero_pad 2 (Month t) @ ''-''
             @ zero_pad 2 (Day t) @ '' '' @ zero_pad 2 (Hour t) @ '':''
             @ zero_pad 2 (Minute t) @ '':'' @ zero_pad 2 (Second t)"
  assumes "\<not> UseJSONLog (Config g)" and "\<not> EnableLogColors (Config g)"
  shows "\<exists>lg f. logger (init g) = Some lg \<and> logger_Formatter lg = MyJSONFormatter f
           \<and> DisableColors f
           \<and> MyJSONFormatter_Format f
                \<lparr>entry_Data = d, entry_Time = t, entry_Level = lv, entry_Message = msg\<rparr>
               = Some (stamp @ '' '' @ pad_right 6 (strings_ToUpper (Level_String lv))
                         @ '' : '' @ msg @ [CHR 0x0A], None)
           \<and> MyJSONFormatter_Format f
                \<lparr>entry_Data = d, entry_Time = t, entry_Level = ErrorLevel,
                 entry_Message = ''disk full''\<rparr>
               = Some (stamp @ '' ERROR  : disk full'' @ [CHR 0x0A], None)
           \<and> (Year t < 10000 \<and> Month t < 100 \<and> Day t < 100 \<and> Hour t < 100
                \<and> Minute t < 100 \<and> Second t < 100 \<longrightarrow> length stamp = 19)"
proof -
  let ?f = "\<lparr>FullTimestamp = True, TimestampFormat = ''2006-01-02 15:04:05'',
             DisableLevelTruncation = True, DisableColors = True\<rparr>"
  let ?lg = "\<lparr>logger_Level = DebugLevel, logger_Formatter = MyJSONFormatter ?f\<rparr>"
  from assms(2,3) have lg: "logger (init g) = Some ?lg" by (simp add: init_text_formatter)
  have fmt: "MyJSONFormatter_Format ?f
               \<lparr>entry_Data = d, entry_Time = t, entry_Level = l, entry_Message = m\<rparr>
             = Some (stamp @ '' '' @ pad_right 6 (strings_ToUpper (Level_String l))
                       @ '' : '' @ m @ [CHR 0x0A], None)" for l m
    by (simp add: MyJSONFormatter_Format_def time_Format_layout stamp_def)
  have err: "MyJSONFormatter_Format ?f
               \<lparr>entry_Data = d, entry_Time = t, entry_Level = ErrorLevel,
                entry_Message = ''disk full''\<rparr>
             = Some (stamp @ '' ERROR  : disk full'' @ [CHR 0x0A], None)"
    by (simp add: fmt upper_level_names pad_right_6)
  have len: "Year t < 10000 \<and> Month t < 100 \<and> Day t < 100 \<and> Hour t < 100
               \<and> Minute t < 100 \<and> Second t < 100 \<longrightarrow> length stamp = 19"
    by (simp add: stamp_def length_zero_pad_2 length_zero_pad_4)
  from lg fmt [of lv msg] err len show ?thesis by simp
qed

theorem Format_plain_line_witness:
  "\<not> UseJSONLog (Config \<lparr>Config = \<lparr>LogLevel = LogLevelNotice, UseJSONLog = False,
        EnableLogColors = False\<rparr>, logger = None\<rparr>)
   \<and> \<not> EnableLogColors (Config \<lparr>Config = \<lparr>LogLevel = LogLevelNotice, UseJSONLog = False,
        EnableLogColors = False\<rparr>, logger = None\<rparr>)
   \<and> (\<exists>lg f. logger (init \<lparr>Config = \<lparr>LogLevel = LogLevelNotice, UseJSONLog = False,
                    EnableLogColors = False\<rparr>, logger = None\<rparr>) = Some lg
          \<and> logger_Formatter lg = MyJSONFormatter f
          \<and> MyJSONFormatter_Format f
               \<lparr>entry_Data = Map.empty,
                entry_Time = \<lparr>Year = 2024, Month = 3, Day = 9, Hour = 7, Minute = 5, Second = 0\<rparr>,
                entry_Level = WarnLevel, entry_Message = ''low space''\<rparr>
              = Some (''2024-03-09 07:05:00 WARNING : low space'' @ [CHR 0x0A], None))"
proof -
  let ?g = "\<lparr>Config = \<lparr>LogLevel = LogLevelNotice, UseJSONLog = False,
               EnableLogColors = False\<rparr>, logger = None\<rparr>"
  let ?t = "\<lparr>Year = 2024, Month = 3, Day = 9, Hour = 7, Minute = 5, Second = 0\<rparr>"
  have plain: "\<not> UseJSONLog (Config ?g)" and nocol: "\<not> EnableLogColors (Config ?g)"
    by simp_all
  have stamp: "zero_pad 4 (Year ?t) @ ''-'' @ zero_pad 2 (Month ?t) @ ''-''
             @ zero_pad 2 (Day ?t) @ '' '' @ zero_pad 2 (Hour ?t) @ '':''
             @ zero_pad 2 (Minute ?t) @ '':'' @ zero_pad 2 (Second ?t) = ''2024-03-09 07:05:00''"
    by (simp add: zero_pad_def dec.simps digit_char_def)
  from Format_plain_line [OF plain nocol, of Map.empty ?t WarnLevel "''low space''"]
  obtain lg f where "logger (init ?g) = Some lg" "logger_Formatter lg = MyJSONFormatter f"
    "MyJSONFormatter_Format f
       \<lparr>entry_Data = Map.empty, entry_Time = ?t, entry_Level = WarnLevel,
        entry_Message = ''low space''\<rparr>
     = Some ((zero_pad 4 (Year ?t) @ ''-'' @ zero_pad 2 (Month ?t) @ ''-''
             @ zero_pad 2 (Day ?t) @ '' '' @ zero_pad 2 (Hour ?t) @ '':''
             @ zero_pad 2 (Minute ?t) @ '':'' @ zero_pad 2 (Second ?t))
             @ '' '' @ pad_right 6 (strings_ToUpper (Level_String WarnLevel))
             @ '' : '' @ ''low space'' @ [CHR 0x0A], None)"
    by blast
  then have "logger (init ?g) = Some lg \<and> logger_Formatter lg = MyJSONFormatter f
     \<and> MyJSONFormatter_Format f
       \<lparr>entry_Data = Map.empty, entry_Time = ?t, entry_Level = WarnLevel,
        entry_Message = ''low space''\<rparr>
     = Some (''2024-03-09 07:05:00 WARNING : low space'' @ [CHR 0x0A], None)"
    unfolding stamp by (simp add: upper_level_names pad_right_6)
  then show ?thesis using plain nocol by blast
qed

text \<open>
  Claim C6. The formatter that \<^verbatim>\<open>init\<close> builds in text mode with colors enabled wraps
  the padded level name between the escape sequences \<^verbatim>\<open>ESC[<code>m\<close> and
  \<^verbatim>\<open>ESC[0m\<close>, where the code depends on the level only: 34 for debug and trace, 33
  for warning, 31 for error, fatal and panic, 36 for the remaining level, info.
\<close>

theorem Format_color_codes:
  fixes t :: Time and lv :: logrus_Level
  defines "stamp \<equiv> zero_pad 4 (Year t) @ ''-'' @ zero_pad 2 (Month t) @ ''-''
             @ zero_pad 2 (Day t) @ '' '' @ zero_pad 2 (Hour t) @ '':''
             @ zero_pad 2 (Minute t) @ '':'' @ zero_pad 2 (Second t)"
    and "code \<equiv> (if lv = DebugLevel \<or> lv = TraceLevel then ''34''
                  else if lv = WarnLevel then ''33''
                  else if lv = ErrorLevel \<or> lv = FatalLevel \<or> lv = PanicLevel then ''31''
                  else ''36'')"
  assumes "\<not> UseJSONLog (Config g)" and "EnableLogColors (Config g)"
  shows "\<exists>lg f. logger (init g) = Some lg \<and> logger_Formatter lg = MyJSONFormatter f
           \<and> \<not> DisableColors f
           \<and> MyJSONFormatter_Format f
                \<lparr>entry_Data = d, entry_Time = t, entry_Level = lv, entry_Message = msg\<rparr>
               = Some (stamp @ '' '' @ [CHR 0x1B] @ ''['' @ code @ ''m''
                         @ pad_right 6 (strings_ToUpper (Level_String lv))
                         @ [CHR 0x1B] @ ''[0m'' @ '' : '' @ msg @ [CHR 0x0A], None)"
proof -
  let ?f = "\<lparr>FullTimestamp = True, TimestampFormat = ''2006-01-02 15:04:05'',
             DisableLevelTruncation = True, DisableColors = False\<rparr>"
  let ?lg = "\<lparr>logger_Level = DebugLevel, logger_Formatter = MyJSONFormatter ?f\<rparr>"
  from assms(3,4) have lg: "logger (init g) = Some ?lg" by (simp add: init_text_formatter)
  have col: "dec (levelColor lv) = code"
    by (cases lv) (simp_all add: levelColor_def code_def dec_colors)
  have "MyJSONFormatter_Format ?f
               \<lparr>entry_Data = d, entry_Time = t, entry_Level = lv, entry_Message = msg\<rparr>
             = Some (stamp @ '' '' @ [CHR 0x1B] @ ''['' @ code @ ''m''
                         @ pad_right 6 (strings_ToUpper (Level_String lv))
                         @ [CHR 0x1B] @ ''[0m'' @ '' : '' @ msg @ [CHR 0x0A], None)"
    by (simp add: MyJSONFormatter_Format_def time_Format_layout stamp_def col)
  with lg show ?thesis by simp
qed

theorem Format_color_codes_witness:
  "\<not> UseJSONLog (Config \<lparr>Config = \<lparr>LogLevel = LogLevelNotice, UseJSONLog = False,
        EnableLogColors = True\<rparr>, logger = None\<rparr>)
   \<and> EnableLogColors (Config \<lparr>Config = \<lparr>LogLevel = LogLevelNotice, UseJSONLog = False,
        EnableLogColors = True\<rparr>, logger = None\<rparr>)
   \<and> (\<exists>lg f. logger (init \<lparr>Config = \<lparr>LogLevel = LogLevelNotice, UseJSONLog = False,
                    EnableLogColors = True\<rparr>, logger = None\<rparr>) = Some lg
          \<and> logger_Formatter lg = MyJSONFormatter f
          \<and> MyJSONFormatter_Format f
               \<lparr>entry_Data = Map.empty,
                entry_Time = \<lparr>Year = 2024, Month = 3, Day = 9, Hour = 7, Minute = 5, Second = 0\<rparr>,
                entry_Level = InfoLevel, entry_Message = ''copied''\<rparr>
              = Some (''2024-03-09 07:05:00 '' @ [CHR 0x1B] @ ''[36mINFO  '' @ [CHR 0x1B]
                        @ ''[0m : copied'' @ [CHR 0x0A], None))"
proof -
  let ?g = "\<lparr>Config = \<lparr>LogLevel = LogLevelNotice, UseJSONLog = False,
               EnableLogColors = True\<rparr>, logger = None\<rparr>"
  let ?t = "\<lparr>Year = 2024, Month = 3, Day = 9, Hour = 7, Minute = 5, Second = 0\<rparr>"
  have plain: "\<not> UseJSONLog (Config ?g)" and col: "EnableLogColors (Config ?g)"
    by simp_all
  have stamp: "zero_pad 4 (Year ?t) @ ''-'' @ zero_pad 2 (Month ?t) @ ''-''
             @ zero_pad 2 (Day ?t) @ '' '' @ zero_pad 2 (Hour ?t) @ '':''
             @ zero_pad 2 (Minute ?t) @ '':'' @ zero_pad 2 (Second ?t) = ''2024-03-09 07:05:00''"
    by (simp add: zero_pad_def dec.simps digit_char_def)
  from Format_color_codes [OF plain col, of Map.empty ?t InfoLevel "''copied''"]
  obtain lg f where "logger (init ?g) = Some lg" "logger_Formatter lg = MyJSONFormatter f"
    "MyJSONFormatter_Format f
       \<lparr>entry_Data = Map.empty, entry_Time = ?t, entry_Level = InfoLevel,
        entry_Message = ''copied''\<rparr>
     = Some ((zero_pad 4 (Year ?t) @ ''-'' @ zero_pad 2 (Month ?t) @ ''-''
             @ zero_pad 2 (Day ?t) @ '' '' @ zero_pad 2 (Hour ?t) @ '':''
             @ zero_pad 2 (Minute ?t) @ '':'' @ zero_pad 2 (Second ?t))
             @ '' '' @ [CHR 0x1B] @ ''['' @ ''36'' @ ''m''
             @ pad_right 6 (strings_ToUpper (Level_String InfoLevel))
             @ [CHR 0x1B] @ ''[0m'' @ '' : '' @ ''copied'' @ [CHR 0x0A], None)"
    by auto
  then have "logger (init ?g) = Some lg \<and> logger_Formatter lg = MyJSONFormatter f
     \<and> MyJSONFormatter_Format f
       \<lparr>entry_Data = Map.empty, entry_Time = ?t, entry_Level = InfoLevel,
        entry_Message = ''copied''\<rparr>
     = Some (''2024-03-09 07:05:00 '' @ [CHR 0x1B] @ ''[36mINFO  '' @ [CHR 0x1B]
                        @ ''[0m : copied'' @ [CHR 0x0A], None)"
    unfolding stamp by (simp add: upper_level_names pad_right_6)
  then show ?thesis using plain col by blast
qed

end
